theory Spec2Isabelle
  imports Complex_Main "HOL-Library.Sublist"
begin

section \<open>Python values used by sway_tab_colors.py\<close>

text \<open>
  A string is the list of its UTF-8 bytes; one string occurs in another exactly when its
  bytes occur in the other's bytes. A Python value that is either a string or \<open>None\<close>
  is a \<open>string option\<close>, with \<open>None\<close> for Python's \<open>None\<close>. The exceptions the
  script can meet are values of \<open>error\<close>: calling \<open>.lower()\<close> on \<open>None\<close>, a
  \<open>TypeError\<close> with its message, a missing dictionary key, and whatever the IPC
  connection raises (with its message).
\<close>

datatype error = AttributeError | TypeError string | KeyError string | IpcError string

definition str_error :: "error \<Rightarrow> string" where
  "str_error e =
     (case e of
        AttributeError \<Rightarrow>
          [CHR 0x27] @ ''NoneType'' @ [CHR 0x27] @ '' object has no attribute '' @
          [CHR 0x27] @ ''lower'' @ [CHR 0x27]
      | TypeError msg \<Rightarrow> msg
      | KeyError k \<Rightarrow> [CHR 0x27] @ k @ [CHR 0x27]
      | IpcError msg \<Rightarrow> msg)"

definition bind_err :: "error + 'a \<Rightarrow> ('a \<Rightarrow> error + 'b) \<Rightarrow> error + 'b" where
  "bind_err m f = (case m of Inl e \<Rightarrow> Inl e | Inr v \<Rightarrow> f v)"

text \<open>
  \<open>str.lower()\<close> is Python's own, with the Unicode case mappings behind it. It is not
  defined here: every function that lower-cases takes it as the parameter \<open>str_lower\<close>,
  a function on strings, and every theorem about those functions holds for whatever
  function is passed. \<open>py_lower\<close> is \<open>v.lower()\<close> for a value that may be \<open>None\<close>.
\<close>

type_synonym lowering = "string \<Rightarrow> string"

definition py_lower :: "lowering \<Rightarrow> string option \<Rightarrow> error + string" where
  "py_lower str_lower v =
     (case v of None \<Rightarrow> Inl AttributeError | Some s \<Rightarrow> Inr (str_lower s))"

text \<open>\<open>d[k]\<close> on a dictionary.\<close>

definition getitem :: "(string \<rightharpoonup> 'v) \<Rightarrow> string \<Rightarrow> error + 'v" where
  "getitem d k = (case d k of None \<Rightarrow> Inl (KeyError k) | Some v \<Rightarrow> Inr v)"

text \<open>\<open>key in s\<close> on two strings: \<open>key\<close> occurs in \<open>s\<close> as a contiguous run.\<close>

fun str_in :: "string \<Rightarrow> string \<Rightarrow> bool" where
  "str_in key [] = (key = [])"
| "str_in key (c # s) = (prefix key (c # s) \<or> str_in key s)"

text \<open>\<open>x or ""\<close>: \<open>None\<close> and the empty string both give the empty string.\<close>

definition or_empty :: "string option \<Rightarrow> string" where
  "or_empty v = (case v of None \<Rightarrow> [] | Some s \<Rightarrow> s)"

text \<open>Truth value of a string-or-None: \<open>None\<close> and \<open>""\<close> are false.\<close>

definition truthy :: "string option \<Rightarrow> bool" where
  "truthy v = (case v of None \<Rightarrow> False | Some s \<Rightarrow> s \<noteq> [])"

text \<open>A value inside an f-string.\<close>

definition fstr :: "string option \<Rightarrow> string" where
  "fstr v = (case v of None \<Rightarrow> ''None'' | Some s \<Rightarrow> s)"

text \<open>\<open>str(n)\<close> for integers, in decimal.\<close>

fun str_nat :: "nat \<Rightarrow> string" where
  "str_nat n =
     (if n < 10 then [char_of (48 + n)]
      else str_nat (n div 10) @ [char_of (48 + n mod 10)])"

declare str_nat.simps [simp del]

definition str_int :: "int \<Rightarrow> string" where
  "str_int i = (if i < 0 then CHR ''-'' # str_nat (nat (- i)) else str_nat (nat i))"

section \<open>Windows, rules and the global state\<close>

text \<open>
  A window as the script reads it from an i3ipc container: \<open>id\<close>, five attributes that are
  a string or \<open>None\<close>, and \<open>ipc_data\<close>, the container's raw dictionary (\<open>None\<close> when the
  object has no such attribute), of which only the key \<open>shell\<close> is read.
\<close>

record window =
  win_id :: int
  app_id :: "string option"
  name :: "string option"
  window_class :: "string option"
  window_instance :: "string option"
  window_role :: "string option"
  ipc_data :: "(string \<rightharpoonup> string) option"

text \<open>
  A rule is one object of the JSON array in the config file: a dictionary from field
  names to strings. \<open>rule.get(k)\<close> is \<open>rule k\<close>.
\<close>

type_synonym rule = "string \<rightharpoonup> string"

type_synonym colors = "string option \<times> string option"

text \<open>
  What \<open>json.load\<close> can leave in \<open>COLOR_RULES\<close>: the array of rule objects, or a value
  that is no container at all (JSON \<open>null\<close>, a number, \<open>true\<close> or \<open>false\<close>), kept as
  the name of its Python type (\<open>NoneType\<close>, \<open>int\<close>, \<open>float\<close>, \<open>bool\<close>). Such a value
  has no \<open>len()\<close> and cannot be iterated. A top-level JSON string or object, and arrays
  that hold anything but objects with string values, are outside the model.
\<close>

datatype rules_value = Rules "rule list" | Unsized string

text \<open>\<open>len(v)\<close> and the start of \<open>for rule in v\<close>, with the messages Python gives.\<close>

definition py_len :: "rules_value \<Rightarrow> error + nat" where
  "py_len v =
     (case v of
        Rules rules \<Rightarrow> Inr (length rules)
      | Unsized ty \<Rightarrow>
          Inl (TypeError (''object of type '' @ [CHR 0x27] @ ty @ [CHR 0x27] @ '' has no len()'')))"

definition py_iter :: "rules_value \<Rightarrow> error + rule list" where
  "py_iter v =
     (case v of
        Rules rules \<Rightarrow> Inr rules
      | Unsized ty \<Rightarrow>
          Inl (TypeError ([CHR 0x27] @ ty @ [CHR 0x27] @ '' object is not iterable'')))"

text \<open>
  The module's globals, and two traces of what the script does to the outside:
  the lines printed to standard output and standard error, and \<open>commands\<close>, every
  string handed to \<open>ipc.command\<close>, oldest first.
\<close>

record state =
  COLOR_RULES :: rules_value
  LAST_MTIME :: real
  LAST_ERROR :: string
  APPLIED_COLORS :: "int \<rightharpoonup> colors"
  stdout :: "string list"
  stderr :: "string list"
  commands :: "string list"

text \<open>
  The IPC connection: \<open>ipc_command c\<close> is \<open>None\<close> when \<open>ipc.command(c)\<close> returns and
  \<open>Some msg\<close> when it raises an exception whose text is \<open>msg\<close>; \<open>ipc_get_tree\<close> is the
  list \<open>ipc.get_tree().leaves()\<close>, or the text of the exception raised.
\<close>

record ipc =
  ipc_command :: "string \<Rightarrow> string option"
  ipc_get_tree :: "string + window list"

text \<open>
  The config file as \<open>load_config\<close> sees it: absent; present but \<open>os.path.getmtime\<close>
  raises; or present with a modification time and the outcome of \<open>open\<close> and
  \<open>json.load\<close> (the text of the exception raised, or the value read).
\<close>

datatype config_file =
  Absent
  | NoStat string
  | Present real "string + rules_value"

section \<open>load_config\<close>

text \<open>Lines 21-23 and 44-46: print and remember an error message only when it is new.\<close>

definition report_error :: "string \<Rightarrow> state \<Rightarrow> state" where
  "report_error msg s =
     (if msg \<noteq> LAST_ERROR s
      then s\<lparr>stderr := stderr s @ [msg], LAST_ERROR := msg\<rparr>
      else s)"

text \<open>
  Lines 16-47. The three globals are assigned on lines 31-34, before line 35 takes
  \<open>len(COLOR_RULES)\<close>: when that raises, the \<open>except\<close> branch reports the error on the
  state the assignments left.
\<close>

definition load_config :: "string \<Rightarrow> config_file \<Rightarrow> state \<Rightarrow> bool \<times> state" where
  "load_config CONFIG_FILE file s =
     (case file of
        Absent \<Rightarrow> (False, report_error (''Config file not found: '' @ CONFIG_FILE) s)
      | NoStat e \<Rightarrow> (False, report_error (''Error loading config: '' @ e) s)
      | Present mtime content \<Rightarrow>
          if mtime \<le> LAST_MTIME s then (False, s)
          else
            (case content of
               Inl e \<Rightarrow> (False, report_error (''Error loading config: '' @ e) s)
             | Inr v \<Rightarrow>
                 (let s1 = s\<lparr>COLOR_RULES := v, LAST_MTIME := mtime, LAST_ERROR := []\<rparr>
                  in case py_len v of
                       Inl e \<Rightarrow>
                         (False, report_error (''Error loading config: '' @ str_error e) s1)
                     | Inr n \<Rightarrow>
                         (True,
                          s1\<lparr>stdout := stdout s1 @
                               [''Loaded '' @ str_nat n @ '' rules from '' @ CONFIG_FILE],
                             APPLIED_COLORS := Map.empty\<rparr>))))"

section \<open>get_colors_for_window\<close>

text \<open>Lines 90-97: the dictionary \<open>props\<close>.\<close>

definition props_of :: "window \<Rightarrow> (string \<rightharpoonup> string option)" where
  "props_of window =
     [''app_id'' \<mapsto> Some (or_empty (app_id window)),
      ''title'' \<mapsto> Some (or_empty (name window)),
      ''class'' \<mapsto> Some (or_empty (window_class window)),
      ''instance'' \<mapsto> Some (or_empty (window_instance window)),
      ''role'' \<mapsto> Some (or_empty (window_role window)),
      ''shell'' \<mapsto> (case ipc_data window of Some d \<Rightarrow> d ''shell'' | None \<Rightarrow> Some [])]"

text \<open>Lines 103-108: the generic \<open>match\<close> key; the result is \<open>is_match\<close> after the check.\<close>

definition check_generic ::
  "lowering \<Rightarrow> rule \<Rightarrow> (string \<rightharpoonup> string option) \<Rightarrow> error + bool" where
  "check_generic str_lower rule props =
     (case rule ''match'' of
        None \<Rightarrow> Inr True
      | Some m \<Rightarrow>
          (let key = str_lower m in
           bind_err (bind_err (getitem props ''title'') (py_lower str_lower)) (\<lambda>t.
             if str_in key t then Inr True
             else
               bind_err (bind_err (getitem props ''app_id'') (py_lower str_lower)) (\<lambda>a.
                 if str_in key a then Inr True
                 else
                   bind_err (bind_err (getitem props ''class'') (py_lower str_lower)) (\<lambda>c.
                     Inr (str_in key c))))))"

text \<open>
  Lines 112-117: the loop over the specific property names, started with the value of
  \<open>is_match\<close> the generic check left; the first failing property sets it to false and
  leaves the loop.
\<close>

fun check_specific ::
  "lowering \<Rightarrow> string list \<Rightarrow> rule \<Rightarrow> (string \<rightharpoonup> string option) \<Rightarrow> bool \<Rightarrow>
   error + bool" where
  "check_specific str_lower [] rule props is_match = Inr is_match"
| "check_specific str_lower (prop_name # rest) rule props is_match =
     (case rule prop_name of
        None \<Rightarrow> check_specific str_lower rest rule props is_match
      | Some v \<Rightarrow>
          bind_err (bind_err (getitem props prop_name) (py_lower str_lower)) (\<lambda>p.
            if \<not> str_in (str_lower v) p then Inr False
            else check_specific str_lower rest rule props is_match))"

definition PROP_NAMES :: "string list" where
  "PROP_NAMES = [''app_id'', ''title'', ''class'', ''instance'', ''role'', ''shell'']"

text \<open>Lines 100-117: the body of the loop over the rules, up to the final \<open>is_match\<close>.\<close>

definition rule_matches ::
  "lowering \<Rightarrow> rule \<Rightarrow> (string \<rightharpoonup> string option) \<Rightarrow> error + bool" where
  "rule_matches str_lower rule props =
     bind_err (check_generic str_lower rule props) (\<lambda>is_match.
       check_specific str_lower PROP_NAMES rule props is_match)"

text \<open>Lines 99-122: the loop over \<open>COLOR_RULES\<close>.\<close>

fun rules_loop ::
  "lowering \<Rightarrow> rule list \<Rightarrow> (string \<rightharpoonup> string option) \<Rightarrow> error + colors" where
  "rules_loop str_lower [] props = Inr (None, None)"
| "rules_loop str_lower (rule # rest) props =
     (case rule_matches str_lower rule props of
        Inl e \<Rightarrow> Inl e
      | Inr is_match \<Rightarrow>
          if is_match then Inr (rule ''bg_color'', rule ''text_color'')
          else rules_loop str_lower rest props)"

text \<open>Lines 88-122: \<open>props\<close> is built first, then the loop starts on \<open>COLOR_RULES\<close>.\<close>

definition get_colors_for_window :: "lowering \<Rightarrow> state \<Rightarrow> window \<Rightarrow> error + colors" where
  "get_colors_for_window str_lower s window =
     (let props = props_of window
      in bind_err (py_iter (COLOR_RULES s)) (\<lambda>rules. rules_loop str_lower rules props))"

section \<open>apply_title_format\<close>

text \<open>Lines 63-66: the suffix of an XWayland window.\<close>

definition shell_suffix :: "window \<Rightarrow> string" where
  "shell_suffix window =
     (let shell = (case ipc_data window of Some d \<Rightarrow> d ''shell'' | None \<Rightarrow> None)
      in if shell = Some ''xwayland'' then '' [XWayland]'' else [])"

text \<open>Lines 69-77: the Pango markup, or the bare placeholder.\<close>

definition title_fmt :: "string \<Rightarrow> string option \<Rightarrow> string option \<Rightarrow> string" where
  "title_fmt sfx bg_color text_color =
     (if truthy bg_color \<or> truthy text_color then
        (let attrs0 = [];
             attrs1 = (if truthy bg_color
                       then attrs0 @ '' background='' @ [CHR 0x27] @ fstr bg_color @ [CHR 0x27]
                       else attrs0);
             attrs2 = (if truthy text_color
                       then attrs1 @ '' foreground='' @ [CHR 0x27] @ fstr text_color @ [CHR 0x27]
                       else attrs1)
         in ''<span'' @ attrs2 @ ''> %title'' @ sfx @ '' </span>'')
      else ''%title'' @ sfx)"

text \<open>Line 80: every double quote gets a backslash in front.\<close>

definition escape_quotes :: "string \<Rightarrow> string" where
  "escape_quotes fmt = concat (map (\<lambda>c. if c = CHR 0x22 then [CHR 0x5C, CHR 0x22] else [c]) fmt)"

text \<open>Line 82: the command string.\<close>

definition title_format_cmd :: "int \<Rightarrow> string \<Rightarrow> string" where
  "title_format_cmd wid fmt =
     ''[con_id='' @ str_int wid @ ''] title_format '' @ [CHR 0x22] @ escape_quotes fmt @ [CHR 0x22]"

text \<open>The command for a window and a decision: lines 63-82 together.\<close>

abbreviation cmd_of :: "window \<Rightarrow> string option \<Rightarrow> string option \<Rightarrow> string" where
  "cmd_of w bg text \<equiv> title_format_cmd (win_id w) (title_fmt (shell_suffix w) bg text)"

text \<open>
  The result is the outcome of the call (an exception, or a normal return) together
  with the state it leaves: globals written before an exception stay written.
\<close>

definition apply_title_format ::
  "ipc \<Rightarrow> window \<Rightarrow> string option \<Rightarrow> string option \<Rightarrow> state \<Rightarrow> (error + unit) \<times> state" where
  "apply_title_format conn window bg_color text_color s =
     (if APPLIED_COLORS s (win_id window) = Some (bg_color, text_color) then (Inr (), s)
      else
        (let sfx = shell_suffix window;
             fmt = title_fmt sfx bg_color text_color;
             cmd = title_format_cmd (win_id window) fmt;
             s1 = s\<lparr>commands := commands s @ [cmd]\<rparr>
         in case ipc_command conn cmd of
              Some msg \<Rightarrow> (Inl (IpcError msg), s1)
            | None \<Rightarrow>
                (Inr (),
                 s1\<lparr>APPLIED_COLORS :=
                      (APPLIED_COLORS s1)(win_id window \<mapsto> (bg_color, text_color))\<rparr>)))"

section \<open>apply_to_all_windows and on_window_event\<close>

text \<open>Lines 134-136: the loop over the leaves; an exception leaves the loop.\<close>

fun leaves_loop ::
  "lowering \<Rightarrow> ipc \<Rightarrow> window list \<Rightarrow> state \<Rightarrow> (error + unit) \<times> state" where
  "leaves_loop str_lower conn [] s = (Inr (), s)"
| "leaves_loop str_lower conn (window # rest) s =
     (case get_colors_for_window str_lower s window of
        Inl e \<Rightarrow> (Inl e, s)
      | Inr (matched_bg, matched_text) \<Rightarrow>
          (case apply_title_format conn window matched_bg matched_text s of
             (Inl e, s') \<Rightarrow> (Inl e, s')
           | (Inr u, s') \<Rightarrow> leaves_loop str_lower conn rest s'))"

definition apply_to_all_windows :: "lowering \<Rightarrow> ipc \<Rightarrow> state \<Rightarrow> (error + unit) \<times> state" where
  "apply_to_all_windows str_lower conn s =
     (case ipc_get_tree conn of
        Inl msg \<Rightarrow> (Inl (IpcError msg), s)
      | Inr leaves \<Rightarrow> leaves_loop str_lower conn leaves s)"

text \<open>Lines 138-144: one window event; every exception is caught and printed.\<close>

definition on_window_event :: "lowering \<Rightarrow> ipc \<Rightarrow> window \<Rightarrow> state \<Rightarrow> state" where
  "on_window_event str_lower conn window s =
     (case get_colors_for_window str_lower s window of
        Inl e \<Rightarrow> s\<lparr>stderr := stderr s @ [''Error: '' @ str_error e]\<rparr>
      | Inr (matched_bg, matched_text) \<Rightarrow>
          (case apply_title_format conn window matched_bg matched_text s of
             (Inl e, s') \<Rightarrow> s'\<lparr>stderr := stderr s' @ [''Error: '' @ str_error e]\<rparr>
           | (Inr u, s') \<Rightarrow> s'))"

text \<open>
  Lines 152-165: one tick of the watcher after its sleep. A failed sweep is printed;
  the connection the watcher keeps is not part of the state.
\<close>

definition watch_tick ::
  "lowering \<Rightarrow> string \<Rightarrow> config_file \<Rightarrow> ipc \<Rightarrow> state \<Rightarrow> state" where
  "watch_tick str_lower CONFIG_FILE file conn s =
     (case load_config CONFIG_FILE file s of
        (False, s1) \<Rightarrow> s1
      | (True, s1) \<Rightarrow>
          (let s2 = s1\<lparr>stdout := stdout s1 @ [''Config changed, reapplying to all windows...'']\<rparr>
           in case apply_to_all_windows str_lower conn s2 of
                (Inl e, s3) \<Rightarrow>
                  s3\<lparr>stderr := stderr s3 @ [''Error applying changes in watcher: '' @ str_error e]\<rparr>
              | (Inr u, s3) \<Rightarrow> s3))"

section \<open>Example inputs\<close>

text \<open>
  Three rules in file order, a browser window running under XWayland, a window whose
  raw dictionary has no \<open>shell\<close> key (as i3 reports containers), a state that has
  loaded the three rules and applied nothing yet, and two connections: one that accepts
  every command and one that raises on every call. The examples are ASCII strings, and
  \<open>ascii_lower\<close> is what \<open>str.lower()\<close> does on those: it maps the letters \<open>A\<close> to
  \<open>Z\<close> to \<open>a\<close> to \<open>z\<close>. It stands for the parameter \<open>str_lower\<close> in the examples
  only.
\<close>

definition ascii_lower_char :: "char \<Rightarrow> char" where
  "ascii_lower_char c =
     (let n = (of_char c :: nat) in if 65 \<le> n \<and> n \<le> 90 then char_of (n + 32) else c)"

definition ascii_lower :: lowering where
  "ascii_lower s = map ascii_lower_char s"

definition ex_rules :: "rule list" where
  "ex_rules =
     [[''app_id'' \<mapsto> ''kitty'', ''bg_color'' \<mapsto> ''#111111''],
      [''match'' \<mapsto> ''firefox'', ''bg_color'' \<mapsto> ''#222222''],
      [''text_color'' \<mapsto> ''#ffffff'']]"

definition ex_window :: window where
  "ex_window =
     \<lparr>win_id = 7, app_id = Some ''browser'', name = Some ''Docs - Mozilla Firefox'',
      window_class = None, window_instance = None, window_role = None,
      ipc_data = Some [''shell'' \<mapsto> ''xwayland'']\<rparr>"

definition ex_i3_window :: window where
  "ex_i3_window =
     \<lparr>win_id = 9, app_id = None, name = Some ''xterm'',
      window_class = Some ''XTerm'', window_instance = Some ''xterm'', window_role = None,
      ipc_data = Some Map.empty\<rparr>"

definition ex_state :: state where
  "ex_state =
     \<lparr>COLOR_RULES = Rules ex_rules, LAST_MTIME = 100, LAST_ERROR = [],
      APPLIED_COLORS = Map.empty, stdout = [], stderr = [], commands = []\<rparr>"

definition ex_applied_state :: state where
  "ex_applied_state = ex_state\<lparr>APPLIED_COLORS := [7 \<mapsto> (Some ''#222222'', None)]\<rparr>"

definition ex_path :: string where
  "ex_path = ''/home/u/.config/sway/tab_colors.json''"

definition ex_ipc :: ipc where
  "ex_ipc = \<lparr>ipc_command = (\<lambda>c. None), ipc_get_tree = Inr [ex_window]\<rparr>"

definition ex_ipc_down :: ipc where
  "ex_ipc_down =
     \<lparr>ipc_command = (\<lambda>c. Some ''Broken pipe''), ipc_get_tree = Inl ''Broken pipe''\<rparr>"

section \<open>Basic facts\<close>

lemma str_in_iff: "str_in key s \<longleftrightarrow> (\<exists>pre post. s = pre @ key @ post)"
proof (induction s)
  case Nil
  show ?case by auto
next
  case (Cons c s)
  show ?case
  proof
    assume "str_in key (c # s)"
    then consider "prefix key (c # s)" | "str_in key s" by auto
    then show "\<exists>pre post. c # s = pre @ key @ post"
    proof cases
      case 1
      then obtain post where "c # s = key @ post" by (auto simp: prefix_def)
      then have "c # s = [] @ key @ post" by simp
      then show ?thesis by blast
    next
      case 2
      with Cons.IH obtain pre post where "s = pre @ key @ post" by blast
      then have "c # s = (c # pre) @ key @ post" by simp
      then show ?thesis by blast
    qed
  next
    assume "\<exists>pre post. c # s = pre @ key @ post"
    then obtain pre post where eq: "c # s = pre @ key @ post" by blast
    show "str_in key (c # s)"
    proof (cases pre)
      case Nil
      with eq have "prefix key (c # s)" by (simp add: prefix_def)
      then show ?thesis by simp
    next
      case (Cons a pre')
      with eq have "s = pre' @ key @ post" by simp
      with Cons.IH have "str_in key s" by blast
      then show ?thesis by simp
    qed
  qed
qed

lemmas eval_defs = rule_matches_def check_generic_def PROP_NAMES_def props_of_def
  bind_err_def getitem_def py_lower_def py_iter_def py_len_def or_empty_def Let_def

lemma ex_lower:
  "ascii_lower ''Docs - Mozilla Firefox'' = ''docs - mozilla firefox''"
  "ascii_lower ''firefox'' = ''firefox''"
  "ascii_lower ''browser'' = ''browser''"
  "ascii_lower ''kitty'' = ''kitty''"
  by (simp_all add: ascii_lower_def ascii_lower_char_def char_of_def bit_Suc_0_iff)

lemma get_colors_Rules:
  "COLOR_RULES s = Rules rs \<Longrightarrow>
   get_colors_for_window str_lower s w = rules_loop str_lower rs (props_of w)"
  by (simp add: get_colors_for_window_def py_iter_def bind_err_def)

lemma get_colors_Unsized:
  "COLOR_RULES s = Unsized ty \<Longrightarrow>
   get_colors_for_window str_lower s w =
     Inl (TypeError ([CHR 0x27] @ ty @ [CHR 0x27] @ '' object is not iterable''))"
  by (simp add: get_colors_for_window_def py_iter_def bind_err_def)

section \<open>First match wins\<close>

lemma rules_loop_skip:
  "\<forall>r \<in> set pre. rule_matches str_lower r props = Inr False \<Longrightarrow>
   rules_loop str_lower (pre @ rest) props = rules_loop str_lower rest props"
  by (induction pre) simp_all

lemma rules_loop_first:
  assumes "i < length rs"
    and "rule_matches str_lower (rs ! i) props = Inr True"
    and "\<forall>k<i. rule_matches str_lower (rs ! k) props = Inr False"
  shows "rules_loop str_lower (take (Suc i) rs @ later) props =
         Inr ((rs ! i) ''bg_color'', (rs ! i) ''text_color'')"
proof -
  have split: "take (Suc i) rs = take i rs @ [rs ! i]"
    using assms(1) by (simp add: take_Suc_conv_app_nth)
  have "\<forall>r \<in> set (take i rs). rule_matches str_lower r props = Inr False"
  proof
    fix r assume "r \<in> set (take i rs)"
    then obtain k where "k < length (take i rs)" and "r = take i rs ! k"
      by (auto simp: in_set_conv_nth)
    then have "k < i" and "r = rs ! k" by simp_all
    with assms(3) show "rule_matches str_lower r props = Inr False" by simp
  qed
  then have "rules_loop str_lower (take i rs @ (rs ! i # later)) props =
             rules_loop str_lower (rs ! i # later) props"
    by (rule rules_loop_skip)
  with assms(2) show ?thesis
    by (simp add: split)
qed

text \<open>
  Claim C1. The decision is the first match's: when the rules at positions \<open>i < j\<close> both
  match the window and \<open>i\<close> is the first position that matches (every rule before it
  was evaluated and did not match), \<open>get_colors_for_window\<close> returns the pair
  \<open>(bg_color, text_color)\<close> of rule \<open>i\<close>. The rules after position \<open>i\<close> are not
  consulted: replacing them by any other rules, also rules whose evaluation would
  raise, leaves the result as it is. This holds for every rule list \<open>rs\<close> in
  \<open>COLOR_RULES\<close>, every window and every lower-casing function.
\<close>

theorem first_match_wins:
  assumes "COLOR_RULES s = Rules rs"
    and "i < j" and "j < length rs"
    and "rule_matches str_lower (rs ! i) (props_of w) = Inr True"
    and "rule_matches str_lower (rs ! j) (props_of w) = Inr True"
    and "\<forall>k<i. rule_matches str_lower (rs ! k) (props_of w) = Inr False"
  shows "get_colors_for_window str_lower s w =
           Inr ((rs ! i) ''bg_color'', (rs ! i) ''text_color'') \<and>
         (\<forall>later. get_colors_for_window str_lower
                    (s\<lparr>COLOR_RULES := Rules (take (Suc i) rs @ later)\<rparr>) w =
                  get_colors_for_window str_lower s w)"
proof -
  have i: "i < length rs" using assms(2,3) by simp
  have any: "rules_loop str_lower (take (Suc i) rs @ later) (props_of w) =
             Inr ((rs ! i) ''bg_color'', (rs ! i) ''text_color'')" for later
    using i assms(4,6) by (rule rules_loop_first)
  have "take (Suc i) rs @ drop (Suc i) rs = rs" by simp
  with any [of "drop (Suc i) rs"]
  have here: "get_colors_for_window str_lower s w =
              Inr ((rs ! i) ''bg_color'', (rs ! i) ''text_color'')"
    by (simp add: get_colors_Rules [OF assms(1)])
  show ?thesis
    using here any by (simp add: get_colors_Rules)
qed

theorem first_match_wins_witness:
  "COLOR_RULES ex_state = Rules ex_rules \<and>
   rule_matches ascii_lower (ex_rules ! 0) (props_of ex_window) = Inr False \<and>
   rule_matches ascii_lower (ex_rules ! 1) (props_of ex_window) = Inr True \<and>
   rule_matches ascii_lower (ex_rules ! 2) (props_of ex_window) = Inr True \<and>
   get_colors_for_window ascii_lower ex_state ex_window = Inr (Some ''#222222'', None)"
proof -
  have rs: "COLOR_RULES ex_state = Rules ex_rules"
    by (simp add: ex_state_def)
  have r0: "rule_matches ascii_lower (ex_rules ! 0) (props_of ex_window) = Inr False"
    by (simp add: ex_rules_def ex_window_def eval_defs ex_lower)
  have r1: "rule_matches ascii_lower (ex_rules ! 1) (props_of ex_window) = Inr True"
    by (simp add: ex_rules_def ex_window_def eval_defs ex_lower)
  have r2: "rule_matches ascii_lower (ex_rules ! 2) (props_of ex_window) = Inr True"
    by (simp add: ex_rules_def ex_window_def eval_defs ex_lower)
  have before: "\<forall>k<1. rule_matches ascii_lower (ex_rules ! k) (props_of ex_window) = Inr False"
    using r0 by simp
  have len: "2 < length ex_rules"
    by (simp add: ex_rules_def)
  have "(1::nat) < 2" by simp
  from first_match_wins [OF rs this len r1 r2 before]
  have "get_colors_for_window ascii_lower ex_state ex_window =
        Inr ((ex_rules ! 1) ''bg_color'', (ex_rules ! 1) ''text_color'')"
    by simp
  then have "get_colors_for_window ascii_lower ex_state ex_window = Inr (Some ''#222222'', None)"
    by (simp add: ex_rules_def)
  with rs r0 r1 r2 show ?thesis by simp
qed

section \<open>The applied-state cache\<close>

lemma apply_cached:
  "APPLIED_COLORS s (win_id w) = Some (bg, text) \<Longrightarrow>
   apply_title_format conn w bg text s = (Inr (), s)"
  by (simp add: apply_title_format_def)

lemma apply_accepted:
  "APPLIED_COLORS s (win_id w) \<noteq> Some (bg, text) \<Longrightarrow>
   ipc_command conn (cmd_of w bg text) = None \<Longrightarrow>
   apply_title_format conn w bg text s =
     (Inr (), s\<lparr>commands := commands s @ [cmd_of w bg text],
               APPLIED_COLORS := (APPLIED_COLORS s)(win_id w \<mapsto> (bg, text))\<rparr>)"
  by (simp add: apply_title_format_def Let_def)

lemma apply_raised:
  "APPLIED_COLORS s (win_id w) \<noteq> Some (bg, text) \<Longrightarrow>
   ipc_command conn (cmd_of w bg text) = Some msg \<Longrightarrow>
   apply_title_format conn w bg text s =
     (Inl (IpcError msg), s\<lparr>commands := commands s @ [cmd_of w bg text]\<rparr>)"
  by (simp add: apply_title_format_def Let_def)

lemma apply_Inl_cases:
  assumes "apply_title_format conn w bg text s = (Inl e, s1)"
  shows "APPLIED_COLORS s (win_id w) \<noteq> Some (bg, text) \<and>
         (\<exists>msg. ipc_command conn (cmd_of w bg text) = Some msg \<and> e = IpcError msg) \<and>
         s1 = s\<lparr>commands := commands s @ [cmd_of w bg text]\<rparr>"
  using assms
  by (auto simp: apply_title_format_def Let_def split: if_splits option.splits)

lemma apply_rules_unchanged:
  "COLOR_RULES (snd (apply_title_format conn w bg text s)) = COLOR_RULES s"
  by (simp add: apply_title_format_def Let_def split: option.splits)

lemma apply_dom_mono:
  "dom (APPLIED_COLORS s) \<subseteq> dom (APPLIED_COLORS (snd (apply_title_format conn w bg text s)))"
  by (auto simp: apply_title_format_def Let_def split: option.splits)

lemma get_colors_cong:
  "COLOR_RULES s' = COLOR_RULES s \<Longrightarrow>
   get_colors_for_window str_lower s' w = get_colors_for_window str_lower s w"
  by (simp add: get_colors_for_window_def)

lemma event_cases:
  obtains e where "get_colors_for_window str_lower s w = Inl e"
      and "on_window_event str_lower conn w s = s\<lparr>stderr := stderr s @ [''Error: '' @ str_error e]\<rparr>"
    | bg fg e s' where "get_colors_for_window str_lower s w = Inr (bg, fg)"
      and "apply_title_format conn w bg fg s = (Inl e, s')"
      and "on_window_event str_lower conn w s = s'\<lparr>stderr := stderr s' @ [''Error: '' @ str_error e]\<rparr>"
    | bg fg u s' where "get_colors_for_window str_lower s w = Inr (bg, fg)"
      and "apply_title_format conn w bg fg s = (Inr u, s')"
      and "on_window_event str_lower conn w s = s'"
proof -
  consider e where "get_colors_for_window str_lower s w = Inl e"
    | bg fg where "get_colors_for_window str_lower s w = Inr (bg, fg)"
    by (metis sum.exhaust surj_pair)
  then show ?thesis
  proof cases
    case 1
    then have "on_window_event str_lower conn w s = s\<lparr>stderr := stderr s @ [''Error: '' @ str_error e]\<rparr>"
      by (simp add: on_window_event_def)
    with 1 show ?thesis by (rule that(1))
  next
    case 2
    obtain r s' where ap: "apply_title_format conn w bg fg s = (r, s')"
      by fastforce
    show ?thesis
    proof (cases r)
      case (Inl e)
      with 2 ap have "on_window_event str_lower conn w s = s'\<lparr>stderr := stderr s' @ [''Error: '' @ str_error e]\<rparr>"
        by (simp add: on_window_event_def)
      with 2 ap Inl show ?thesis using that(2) by simp
    next
      case (Inr u)
      with 2 ap have "on_window_event str_lower conn w s = s'"
        by (simp add: on_window_event_def)
      with 2 ap Inr show ?thesis using that(3) by simp
    qed
  qed
qed

lemma event_dom_mono:
  "dom (APPLIED_COLORS s) \<subseteq> dom (APPLIED_COLORS (on_window_event str_lower conn w s))"
proof (cases rule: event_cases [of str_lower s w conn])
  case (1 e)
  then show ?thesis by simp
next
  case (2 bg fg e s')
  with apply_dom_mono [of s conn w bg fg] show ?thesis by simp
next
  case (3 bg fg u s')
  with apply_dom_mono [of s conn w bg fg] show ?thesis by simp
qed

lemma event_rules_unchanged:
  "COLOR_RULES (on_window_event str_lower conn w s) = COLOR_RULES s"
proof (cases rule: event_cases [of str_lower s w conn])
  case (1 e)
  then show ?thesis by simp
next
  case (2 bg fg e s')
  with apply_rules_unchanged [of conn w bg fg s] show ?thesis by simp
next
  case (3 bg fg u s')
  with apply_rules_unchanged [of conn w bg fg s] show ?thesis by simp
qed

lemma leaves_loop_dom_mono:
  "dom (APPLIED_COLORS s) \<subseteq> dom (APPLIED_COLORS (snd (leaves_loop str_lower conn ws s)))"
proof (induction ws arbitrary: s)
  case Nil
  show ?case by simp
next
  case (Cons w ws)
  consider e where "get_colors_for_window str_lower s w = Inl e"
    | bg fg where "get_colors_for_window str_lower s w = Inr (bg, fg)"
    by (metis sum.exhaust surj_pair)
  then show ?case
  proof cases
    case 1
    then show ?thesis by simp
  next
    case 2
    obtain r s' where ap: "apply_title_format conn w bg fg s = (r, s')"
      by fastforce
    have mono: "dom (APPLIED_COLORS s) \<subseteq> dom (APPLIED_COLORS s')"
      using apply_dom_mono [of s conn w bg fg] ap by simp
    show ?thesis
    proof (cases r)
      case (Inl e)
      with 2 ap mono show ?thesis by simp
    next
      case (Inr u)
      have "dom (APPLIED_COLORS s') \<subseteq> dom (APPLIED_COLORS (snd (leaves_loop str_lower conn ws s')))"
        by (rule Cons.IH)
      with mono Inr 2 ap show ?thesis by auto
    qed
  qed
qed

lemma sweep_dom_mono:
  "dom (APPLIED_COLORS s) \<subseteq> dom (APPLIED_COLORS (snd (apply_to_all_windows str_lower conn s)))"
  by (simp add: apply_to_all_windows_def leaves_loop_dom_mono split: sum.splits)

lemma load_True:
  assumes "load_config cf file s = (True, s')"
  shows "\<exists>mtime rules. file = Present mtime (Inr (Rules rules)) \<and> LAST_MTIME s < mtime \<and>
         s' = s\<lparr>COLOR_RULES := Rules rules, LAST_MTIME := mtime, LAST_ERROR := [],
                 stdout := stdout s @ [''Loaded '' @ str_nat (length rules) @ '' rules from '' @ cf],
                 APPLIED_COLORS := Map.empty\<rparr>"
  using assms
  by (auto simp: load_config_def py_len_def Let_def
      split: config_file.splits if_splits sum.splits rules_value.splits)

lemma load_False_cache:
  assumes "load_config cf file s = (False, s')"
  shows "APPLIED_COLORS s' = APPLIED_COLORS s"
  using assms
  by (auto simp: load_config_def report_error_def py_len_def Let_def
      split: config_file.splits if_splits sum.splits rules_value.splits)

lemma event_accepted:
  assumes "get_colors_for_window str_lower s w = Inr (bg, text)"
    and "APPLIED_COLORS s (win_id w) \<noteq> Some (bg, text)"
    and "ipc_command conn (cmd_of w bg text) = None"
  shows "on_window_event str_lower conn w s =
           s\<lparr>commands := commands s @ [cmd_of w bg text],
             APPLIED_COLORS := (APPLIED_COLORS s)(win_id w \<mapsto> (bg, text))\<rparr>"
  using assms by (simp add: on_window_event_def apply_accepted)

lemma event_cached:
  assumes "get_colors_for_window str_lower s w = Inr (bg, text)"
    and "APPLIED_COLORS s (win_id w) = Some (bg, text)"
  shows "on_window_event str_lower conn w s = s"
  using assms by (simp add: on_window_event_def apply_cached)

lemma event_raised:
  assumes "get_colors_for_window str_lower s w = Inr (bg, text)"
    and "APPLIED_COLORS s (win_id w) \<noteq> Some (bg, text)"
    and "ipc_command conn (cmd_of w bg text) = Some msg"
  shows "on_window_event str_lower conn w s =
           s\<lparr>commands := commands s @ [cmd_of w bg text],
             stderr := stderr s @ [''Error: '' @ msg]\<rparr>"
  using assms by (simp add: on_window_event_def apply_raised str_error_def)

lemma ex_cmd:
  "cmd_of ex_window (Some ''#222222'') None =
     ''[con_id=7] title_format '' @ [CHR 0x22] @
     ''<span background='' @ [CHR 0x27] @ ''#222222'' @ [CHR 0x27] @
     ''> %title [XWayland] </span>'' @ [CHR 0x22]"
  by (simp add: title_format_cmd_def title_fmt_def shell_suffix_def truthy_def fstr_def
      escape_quotes_def str_int_def str_nat.simps char_of_def bit_Suc_0_iff ex_window_def)

lemma ex_decision:
  "get_colors_for_window ascii_lower ex_state ex_window = Inr (Some ''#222222'', None)"
  by (simp add: get_colors_for_window_def ex_state_def ex_rules_def ex_window_def eval_defs ex_lower)


lemma apply_twice_one_command_core:
  assumes "get_colors_for_window str_lower s w = Inr (bg, fg)"
    and "APPLIED_COLORS s (win_id w) \<noteq> Some (bg, fg)"
    and "ipc_command conn (cmd_of w bg fg) = None"
  shows "commands (on_window_event str_lower conn w s) = commands s @ [cmd_of w bg fg] \<and>
         on_window_event str_lower conn w (on_window_event str_lower conn w s) =
           on_window_event str_lower conn w s"
proof -
  let ?s1 = "on_window_event str_lower conn w s"
  have s1: "?s1 = s\<lparr>commands := commands s @ [cmd_of w bg fg],
                      APPLIED_COLORS := (APPLIED_COLORS s)(win_id w \<mapsto> (bg, fg))\<rparr>"
    using assms by (rule event_accepted)
  have cached: "APPLIED_COLORS ?s1 (win_id w) = Some (bg, fg)"
    by (simp add: s1)
  have same: "get_colors_for_window str_lower ?s1 w = Inr (bg, fg)"
    using assms(1) by (simp add: s1 get_colors_for_window_def)
  have again: "on_window_event str_lower conn w ?s1 = ?s1"
    using same cached by (rule event_cached)
  show ?thesis
    using again by (simp add: s1)
qed

text \<open>
  Claim C3. Applying twice in a row issues one command. For a window whose decision
  \<open>(bg, fg)\<close> is computed from the current rules and is not yet the cached one (a new
  window, a changed decision, or the first apply after a reload), over a connection
  that accepts the command: the first \<open>on_window_event\<close> hands exactly the window's
  \<open>title_format\<close> command to the connection and caches the decision; the rules are
  unchanged, so the second call computes the same decision, finds it in the cache, and
  is a no-op: \<open>apply_title_format\<close> returns at once and the state, with its list of
  issued commands, stays as the first call left it.
\<close>

theorem apply_twice_one_command:
  assumes "get_colors_for_window str_lower s w = Inr (bg, fg)"
    and "APPLIED_COLORS s (win_id w) \<noteq> Some (bg, fg)"
    and "ipc_command conn (cmd_of w bg fg) = None"
  shows "commands (on_window_event str_lower conn w s) = commands s @ [cmd_of w bg fg] \<and>
         APPLIED_COLORS (on_window_event str_lower conn w s) (win_id w) = Some (bg, fg) \<and>
         get_colors_for_window str_lower (on_window_event str_lower conn w s) w = Inr (bg, fg) \<and>
         apply_title_format conn w bg fg (on_window_event str_lower conn w s) =
           (Inr (), on_window_event str_lower conn w s) \<and>
         on_window_event str_lower conn w (on_window_event str_lower conn w s) =
           on_window_event str_lower conn w s \<and>
         commands (on_window_event str_lower conn w (on_window_event str_lower conn w s)) =
           commands s @ [cmd_of w bg fg]"
proof -
  let ?s1 = "on_window_event str_lower conn w s"
  have s1: "?s1 = s\<lparr>commands := commands s @ [cmd_of w bg fg],
                      APPLIED_COLORS := (APPLIED_COLORS s)(win_id w \<mapsto> (bg, fg))\<rparr>"
    using assms by (rule event_accepted)
  have sent: "commands ?s1 = commands s @ [cmd_of w bg fg]"
    by (simp add: s1)
  have cached: "APPLIED_COLORS ?s1 (win_id w) = Some (bg, fg)"
    by (simp add: s1)
  have same: "get_colors_for_window str_lower ?s1 w = Inr (bg, fg)"
    using assms(1) by (simp add: s1 get_colors_for_window_def)
  have noop: "apply_title_format conn w bg fg ?s1 = (Inr (), ?s1)"
    using cached by (rule apply_cached)
  have again: "on_window_event str_lower conn w ?s1 = ?s1"
    using same cached by (rule event_cached)
  show ?thesis
    using sent cached same noop again by simp
qed

theorem apply_twice_one_command_witness:
  "commands (on_window_event ascii_lower ex_ipc ex_window ex_state) =
     [''[con_id=7] title_format '' @ [CHR 0x22] @
      ''<span background='' @ [CHR 0x27] @ ''#222222'' @ [CHR 0x27] @
      ''> %title [XWayland] </span>'' @ [CHR 0x22]] \<and>
   on_window_event ascii_lower ex_ipc ex_window
       (on_window_event ascii_lower ex_ipc ex_window ex_state) =
     on_window_event ascii_lower ex_ipc ex_window ex_state"
proof -
  have fresh: "APPLIED_COLORS ex_state (win_id ex_window) \<noteq> Some (Some ''#222222'', None)"
    by (simp add: ex_state_def)
  have ok: "ipc_command ex_ipc (cmd_of ex_window (Some ''#222222'') None) = None"
    by (simp add: ex_ipc_def)
  have start: "commands ex_state = []"
    by (simp add: ex_state_def)
  from apply_twice_one_command [OF ex_decision fresh ok]
  show ?thesis
    by (simp add: ex_cmd start)
qed

text \<open>
  Claim C2. The cache is cleared by a successful \<open>load_config\<close> and by nothing else.
  When \<open>load_config\<close> returns true the cache it leaves is empty; so even if the window's
  decision under the new rules equals the decision cached before the reload, the next
  apply over an accepting connection issues exactly one command, and a further apply
  issues none. A \<open>load_config\<close> that returns false leaves the cache as it was, and
  neither a window event nor a sweep over all windows removes an entry.
\<close>

theorem reload_clears_cache:
  assumes "load_config cf file s = (True, s')"
    and "APPLIED_COLORS s (win_id w) = Some (bg, fg)"
    and "get_colors_for_window str_lower s' w = Inr (bg, fg)"
    and "ipc_command conn (cmd_of w bg fg) = None"
  shows "APPLIED_COLORS s' = Map.empty \<and>
         commands (on_window_event str_lower conn w s') = commands s' @ [cmd_of w bg fg] \<and>
         commands (on_window_event str_lower conn w (on_window_event str_lower conn w s')) =
           commands (on_window_event str_lower conn w s') \<and>
         (\<forall>cf0 file0 s0. fst (load_config cf0 file0 s0) \<or>
            APPLIED_COLORS (snd (load_config cf0 file0 s0)) = APPLIED_COLORS s0) \<and>
         (\<forall>conn0 w0 s0.
            dom (APPLIED_COLORS s0) \<subseteq>
            dom (APPLIED_COLORS (on_window_event str_lower conn0 w0 s0))) \<and>
         (\<forall>conn0 s0.
            dom (APPLIED_COLORS s0) \<subseteq>
            dom (APPLIED_COLORS (snd (apply_to_all_windows str_lower conn0 s0))))"
proof -
  have empty: "APPLIED_COLORS s' = Map.empty"
    using load_True [OF assms(1)] by auto
  then have fresh: "APPLIED_COLORS s' (win_id w) \<noteq> Some (bg, fg)"
    by simp
  have twice: "commands (on_window_event str_lower conn w s') = commands s' @ [cmd_of w bg fg]"
    "commands (on_window_event str_lower conn w (on_window_event str_lower conn w s')) =
       commands s' @ [cmd_of w bg fg]"
    using apply_twice_one_command_core [OF assms(3) fresh assms(4)] by simp_all
  have keep: "fst (load_config cf0 file0 s0) \<or>
              APPLIED_COLORS (snd (load_config cf0 file0 s0)) = APPLIED_COLORS s0" for cf0 file0 s0
  proof -
    obtain b t where l: "load_config cf0 file0 s0 = (b, t)" by fastforce
    show ?thesis
    proof (cases b)
      case True
      with l show ?thesis by simp
    next
      case False
      with l load_False_cache [of cf0 file0 s0 t] show ?thesis by simp
    qed
  qed
  show ?thesis
    using empty twice keep event_dom_mono sweep_dom_mono by simp
qed

theorem reload_clears_cache_witness:
  "load_config ex_path (Present 200 (Inr (Rules ex_rules))) ex_applied_state =
     (True, ex_state\<lparr>LAST_MTIME := 200,
                      stdout := [''Loaded 3 rules from /home/u/.config/sway/tab_colors.json'']\<rparr>) \<and>
   APPLIED_COLORS ex_applied_state (win_id ex_window) = Some (Some ''#222222'', None) \<and>
   get_colors_for_window ascii_lower
     (ex_state\<lparr>LAST_MTIME := 200,
                stdout := [''Loaded 3 rules from /home/u/.config/sway/tab_colors.json'']\<rparr>)
     ex_window = Inr (Some ''#222222'', None) \<and>
   length (commands (on_window_event ascii_lower ex_ipc ex_window
     (ex_state\<lparr>LAST_MTIME := 200,
                stdout := [''Loaded 3 rules from /home/u/.config/sway/tab_colors.json'']\<rparr>))) = 1"
proof -
  let ?s' = "ex_state\<lparr>LAST_MTIME := 200,
                stdout := [''Loaded 3 rules from /home/u/.config/sway/tab_colors.json'']\<rparr>"
  have three: "str_nat 3 = ''3''"
    by (simp add: str_nat.simps char_of_def bit_Suc_0_iff)
  have len: "length ex_rules = 3"
    by (simp add: ex_rules_def)
  have load: "load_config ex_path (Present 200 (Inr (Rules ex_rules))) ex_applied_state = (True, ?s')"
    by (simp add: load_config_def py_len_def Let_def ex_applied_state_def ex_state_def
        ex_path_def len three)
  have old: "APPLIED_COLORS ex_applied_state (win_id ex_window) = Some (Some ''#222222'', None)"
    by (simp add: ex_applied_state_def ex_window_def)
  have dec: "get_colors_for_window ascii_lower ?s' ex_window = Inr (Some ''#222222'', None)"
    using ex_decision by (simp add: get_colors_for_window_def)
  have ok: "ipc_command ex_ipc (cmd_of ex_window (Some ''#222222'') None) = None"
    by (simp add: ex_ipc_def)
  have start: "commands ?s' = []"
    by (simp add: ex_state_def)
  from reload_clears_cache [OF load old dec ok]
  have "commands (on_window_event ascii_lower ex_ipc ex_window ?s') =
        commands ?s' @ [cmd_of ex_window (Some ''#222222'') None]"
    by simp
  then have "length (commands (on_window_event ascii_lower ex_ipc ex_window ?s')) = 1"
    by (simp add: start)
  with load old dec show ?thesis by simp
qed

section \<open>A failed command is not cached\<close>

lemma apply_cache_written_after_command:
  "APPLIED_COLORS (snd (apply_title_format conn w bg fg s)) = APPLIED_COLORS s \<or>
   (commands (snd (apply_title_format conn w bg fg s)) = commands s @ [cmd_of w bg fg] \<and>
    ipc_command conn (cmd_of w bg fg) = None)"
  by (simp add: apply_title_format_def Let_def split: option.splits)

text \<open>
  Claim C7. The cache entry is written only after the command was handed to the
  connection. If \<open>apply_title_format\<close> raises for the window's decision, the command
  was attempted and the cache is exactly what it was, also after \<open>on_window_event\<close>
  has caught and printed the exception; a later event for the same window, over any
  connection, attempts the same command again. In general a call of
  \<open>apply_title_format\<close> either leaves the cache alone or has issued the command and
  seen it accepted.
\<close>

theorem failed_command_not_cached:
  assumes "get_colors_for_window str_lower s w = Inr (bg, fg)"
    and "apply_title_format conn w bg fg s = (Inl e, s1)"
  shows "commands s1 = commands s @ [cmd_of w bg fg] \<and>
         APPLIED_COLORS s1 = APPLIED_COLORS s \<and>
         APPLIED_COLORS (on_window_event str_lower conn w s) = APPLIED_COLORS s \<and>
         (\<forall>conn2.
            commands (on_window_event str_lower conn2 w (on_window_event str_lower conn w s)) =
            commands (on_window_event str_lower conn w s) @ [cmd_of w bg fg]) \<and>
         (\<forall>conn0 w0 bg0 fg0 s0.
            APPLIED_COLORS (snd (apply_title_format conn0 w0 bg0 fg0 s0)) = APPLIED_COLORS s0 \<or>
            (commands (snd (apply_title_format conn0 w0 bg0 fg0 s0)) =
               commands s0 @ [cmd_of w0 bg0 fg0] \<and>
             ipc_command conn0 (cmd_of w0 bg0 fg0) = None))"
proof -
  from apply_Inl_cases [OF assms(2)]
  obtain msg where fresh: "APPLIED_COLORS s (win_id w) \<noteq> Some (bg, fg)"
    and msg: "ipc_command conn (cmd_of w bg fg) = Some msg"
    and s1: "s1 = s\<lparr>commands := commands s @ [cmd_of w bg fg]\<rparr>"
    by blast
  let ?t = "on_window_event str_lower conn w s"
  have t: "?t = s\<lparr>commands := commands s @ [cmd_of w bg fg],
                    stderr := stderr s @ [''Error: '' @ msg]\<rparr>"
    using assms(1) fresh msg by (rule event_raised)
  have dec: "get_colors_for_window str_lower ?t w = Inr (bg, fg)"
    using assms(1) by (simp add: t get_colors_for_window_def)
  have fresh': "APPLIED_COLORS ?t (win_id w) \<noteq> Some (bg, fg)"
    using fresh by (simp add: t)
  have retry: "commands (on_window_event str_lower conn2 w ?t) = commands ?t @ [cmd_of w bg fg]"
    for conn2
  proof -
    consider "ipc_command conn2 (cmd_of w bg fg) = None"
      | m where "ipc_command conn2 (cmd_of w bg fg) = Some m"
      by fastforce
    then show ?thesis
    proof cases
      case 1
      with event_accepted [OF dec fresh'] show ?thesis by simp
    next
      case 2
      with event_raised [OF dec fresh'] show ?thesis by simp
    qed
  qed
  have "commands s1 = commands s @ [cmd_of w bg fg]" "APPLIED_COLORS s1 = APPLIED_COLORS s"
    by (simp_all add: s1)
  moreover have "APPLIED_COLORS ?t = APPLIED_COLORS s"
    by (simp add: t)
  ultimately show ?thesis
    using retry apply_cache_written_after_command by simp
qed

theorem failed_command_not_cached_witness:
  "apply_title_format ex_ipc_down ex_window (Some ''#222222'') None ex_state =
     (Inl (IpcError ''Broken pipe''),
      ex_state\<lparr>commands := [cmd_of ex_window (Some ''#222222'') None]\<rparr>) \<and>
   APPLIED_COLORS (on_window_event ascii_lower ex_ipc_down ex_window ex_state) = Map.empty \<and>
   commands (on_window_event ascii_lower ex_ipc ex_window
       (on_window_event ascii_lower ex_ipc_down ex_window ex_state)) =
     [cmd_of ex_window (Some ''#222222'') None, cmd_of ex_window (Some ''#222222'') None]"
proof -
  have ap: "apply_title_format ex_ipc_down ex_window (Some ''#222222'') None ex_state =
     (Inl (IpcError ''Broken pipe''),
      ex_state\<lparr>commands := [cmd_of ex_window (Some ''#222222'') None]\<rparr>)"
    by (simp add: apply_title_format_def Let_def ex_ipc_down_def ex_state_def)
  have ev: "commands (on_window_event ascii_lower ex_ipc_down ex_window ex_state) =
            [cmd_of ex_window (Some ''#222222'') None]"
    using ex_decision ap by (simp add: on_window_event_def)
  have cache: "APPLIED_COLORS ex_state = Map.empty"
    by (simp add: ex_state_def)
  from failed_command_not_cached [OF ex_decision ap]
  show ?thesis
    using ap ev cache by simp
qed

section \<open>A failed load\<close>

lemma report_error_frame:
  "COLOR_RULES (report_error msg s) = COLOR_RULES s"
  "APPLIED_COLORS (report_error msg s) = APPLIED_COLORS s"
  "LAST_MTIME (report_error msg s) = LAST_MTIME s"
  "LAST_ERROR (report_error msg s) = msg"
  "commands (report_error msg s) = commands s"
  "stderr (report_error msg s) = (if msg = LAST_ERROR s then stderr s else stderr s @ [msg])"
  by (simp_all add: report_error_def)

text \<open>
  When \<open>open\<close> or \<open>json.load\<close> raises on a newer file, nothing was assigned yet:
  \<open>load_config\<close> returns false, records the error text and leaves the rules, the
  modification time and the cache as they were, so every window is matched as before.
\<close>

lemma load_raise_keeps_rules:
  assumes "LAST_MTIME s < mtime"
  shows "\<not> fst (load_config cf (Present mtime (Inl e)) s) \<and>
         LAST_ERROR (snd (load_config cf (Present mtime (Inl e)) s)) =
           ''Error loading config: '' @ e \<and>
         COLOR_RULES (snd (load_config cf (Present mtime (Inl e)) s)) = COLOR_RULES s \<and>
         LAST_MTIME (snd (load_config cf (Present mtime (Inl e)) s)) = LAST_MTIME s \<and>
         APPLIED_COLORS (snd (load_config cf (Present mtime (Inl e)) s)) = APPLIED_COLORS s \<and>
         (\<forall>w. get_colors_for_window str_lower (snd (load_config cf (Present mtime (Inl e)) s)) w =
              get_colors_for_window str_lower s w)"
proof -
  have l: "load_config cf (Present mtime (Inl e)) s =
           (False, report_error (''Error loading config: '' @ e) s)"
    using assms by (simp add: load_config_def)
  show ?thesis
    unfolding l by (simp add: report_error_frame get_colors_for_window_def)
qed

text \<open>
  When the newer file holds valid JSON that is no array (\<open>null\<close>, a number, \<open>true\<close>),
  \<open>json.load\<close> returns and the value is assigned: \<open>load_config\<close> returns false with
  \<open>COLOR_RULES\<close> replaced and \<open>LAST_MTIME\<close> moved on, whatever the state was.
\<close>

lemma load_unsized_replaces_rules:
  assumes "LAST_MTIME s < mtime"
  shows "\<not> fst (load_config cf (Present mtime (Inr (Unsized ty))) s) \<and>
         COLOR_RULES (snd (load_config cf (Present mtime (Inr (Unsized ty))) s)) = Unsized ty \<and>
         LAST_MTIME (snd (load_config cf (Present mtime (Inr (Unsized ty))) s)) = mtime \<and>
         APPLIED_COLORS (snd (load_config cf (Present mtime (Inr (Unsized ty))) s)) =
           APPLIED_COLORS s \<and>
         (\<forall>w. get_colors_for_window str_lower
                (snd (load_config cf (Present mtime (Inr (Unsized ty))) s)) w =
              Inl (TypeError ([CHR 0x27] @ ty @ [CHR 0x27] @ '' object is not iterable'')))"
proof -
  have l: "load_config cf (Present mtime (Inr (Unsized ty))) s =
           (False,
            report_error
              (''Error loading config: '' @
               str_error (TypeError
                 (''object of type '' @ [CHR 0x27] @ ty @ [CHR 0x27] @ '' has no len()'')))
              (s\<lparr>COLOR_RULES := Unsized ty, LAST_MTIME := mtime, LAST_ERROR := []\<rparr>))"
    using assms by (simp add: load_config_def py_len_def Let_def)
  show ?thesis
    unfolding l by (simp add: report_error_frame get_colors_Unsized)
qed

text \<open>
  Claim C4. The claim says a config file with malformed content is reported and never
  replaces the loaded rule set, so that matching stays as it was. A file whose content
  is the JSON value \<open>null\<close> is read without an exception; line 31 assigns it to
  \<open>COLOR_RULES\<close> and lines 33-34 update \<open>LAST_MTIME\<close> and \<open>LAST_ERROR\<close> before
  \<open>len(COLOR_RULES)\<close> raises on line 35. \<open>load_config\<close> then records the error and
  returns false, but the three rules are gone: the window that got its colours before
  the load now makes \<open>get_colors_for_window\<close> raise, under every lower-casing.
\<close>

theorem unsized_config_replaces_rules:
  "get_colors_for_window ascii_lower ex_state ex_window = Inr (Some ''#222222'', None) \<and>
   load_config ex_path (Present 200 (Inr (Unsized ''NoneType''))) ex_state =
     (False,
      ex_state\<lparr>COLOR_RULES := Unsized ''NoneType'', LAST_MTIME := 200,
                stderr := [''Error loading config: object of type '' @ [CHR 0x27] @
                           ''NoneType'' @ [CHR 0x27] @ '' has no len()''],
                LAST_ERROR := ''Error loading config: object of type '' @ [CHR 0x27] @
                              ''NoneType'' @ [CHR 0x27] @ '' has no len()''\<rparr>) \<and>
   get_colors_for_window str_lower
     (snd (load_config ex_path (Present 200 (Inr (Unsized ''NoneType''))) ex_state))
     ex_window =
     Inl (TypeError ([CHR 0x27] @ ''NoneType'' @ [CHR 0x27] @ '' object is not iterable''))"
proof -
  have l: "load_config ex_path (Present 200 (Inr (Unsized ''NoneType''))) ex_state =
     (False,
      ex_state\<lparr>COLOR_RULES := Unsized ''NoneType'', LAST_MTIME := 200,
                stderr := [''Error loading config: object of type '' @ [CHR 0x27] @
                           ''NoneType'' @ [CHR 0x27] @ '' has no len()''],
                LAST_ERROR := ''Error loading config: object of type '' @ [CHR 0x27] @
                              ''NoneType'' @ [CHR 0x27] @ '' has no len()''\<rparr>)"
    by (simp add: load_config_def py_len_def Let_def report_error_def str_error_def ex_state_def)
  have "get_colors_for_window str_lower
          (snd (load_config ex_path (Present 200 (Inr (Unsized ''NoneType''))) ex_state))
          ex_window =
        Inl (TypeError ([CHR 0x27] @ ''NoneType'' @ [CHR 0x27] @ '' object is not iterable''))"
    unfolding l by (simp add: get_colors_Unsized)
  with l ex_decision show ?thesis by simp
qed

section \<open>The shell attribute\<close>

text \<open>
  Claim C5. The claim says every attribute the matcher reads is a string, the empty
  string when absent, so that no rule can fail on a null attribute. The entry
  \<open>shell\<close> of \<open>props\<close> is \<open>window.ipc_data.get('shell')\<close> with no default: for a
  window whose raw dictionary has no \<open>shell\<close> key it is \<open>None\<close>, and a rule that
  constrains \<open>shell\<close> makes \<open>get_colors_for_window\<close> raise on such a window, under
  every lower-casing.
\<close>

theorem shell_attribute_none:
  "props_of ex_i3_window ''shell'' = Some None \<and>
   get_colors_for_window str_lower
     (ex_state\<lparr>COLOR_RULES :=
        Rules [[''shell'' \<mapsto> ''xwayland'', ''bg_color'' \<mapsto> ''#333333'']]\<rparr>)
     ex_i3_window = Inl AttributeError"
  by (simp add: get_colors_for_window_def ex_i3_window_def eval_defs)

text \<open>
  Claim C10. The claim says a rule whose constraint values are all empty strings
  matches every window, as a rule with no constraints does. On a window whose raw
  dictionary has no \<open>shell\<close> key, the rule whose only field is an empty \<open>shell\<close>
  raises, where the rule with no fields matches.
\<close>

theorem empty_shell_constraint_raises:
  "rule_matches str_lower [''shell'' \<mapsto> []] (props_of ex_i3_window) = Inl AttributeError \<and>
   rule_matches str_lower Map.empty (props_of ex_i3_window) = Inr True"
  by (simp add: ex_i3_window_def eval_defs)

section \<open>The generic match key\<close>

lemma str_in_sublist: "str_in key s \<longleftrightarrow> sublist key s"
  by (simp add: str_in_iff sublist_def)

lemma props_of_lookup:
  "props_of w ''app_id'' = Some (Some (or_empty (app_id w)))"
  "props_of w ''title'' = Some (Some (or_empty (name w)))"
  "props_of w ''class'' = Some (Some (or_empty (window_class w)))"
  "props_of w ''instance'' = Some (Some (or_empty (window_instance w)))"
  "props_of w ''role'' = Some (Some (or_empty (window_role w)))"
  "props_of w ''shell'' =
     (case ipc_data w of Some d \<Rightarrow> Some (d ''shell'') | None \<Rightarrow> Some (Some []))"
  by (simp_all add: props_of_def split: option.splits)

lemma check_generic_match:
  assumes "rule ''match'' = Some key"
  shows "check_generic str_lower rule (props_of w) =
           Inr (sublist (str_lower key) (str_lower (or_empty (name w))) \<or>
                sublist (str_lower key) (str_lower (or_empty (app_id w))) \<or>
                sublist (str_lower key) (str_lower (or_empty (window_class w))))"
  using assms
  by (simp add: check_generic_def Let_def bind_err_def getitem_def py_lower_def
      props_of_lookup str_in_sublist)

lemma check_specific_absent:
  "\<forall>p \<in> set names. rule p = None \<Longrightarrow> check_specific str_lower names rule props b = Inr b"
  by (induction names) simp_all

lemma check_specific_False:
  "check_specific str_lower names rule props False \<noteq> Inr True"
proof (induction names)
  case Nil
  show ?case by simp
next
  case (Cons p names)
  then show ?case
    by (simp add: bind_err_def getitem_def py_lower_def split: option.splits sum.splits)
qed

text \<open>
  Claim C6. For a rule that carries the generic \<open>match\<close> key, the generic check leaves
  \<open>is_match\<close> true exactly when the lowercased key occurs as a substring of the window's
  lowercased title, app_id or class (\<open>sublist\<close> is "occurs as a contiguous run"), where
  lowercasing is whatever \<open>str.lower()\<close> does: the statement holds for every function
  \<open>str_lower\<close>. A rule whose key occurs in none of the three does not match, whatever
  its other fields say. A rule with no specific fields matches exactly when its key
  occurs in one of the three; in particular the key \<open>firefox\<close>, which lowercasing
  leaves as it is, matches every window whose lowercased title contains
  \<open>mozilla firefox\<close>, with no condition on app_id.
\<close>

theorem generic_match_iff:
  assumes "rule ''match'' = Some key"
  shows "check_generic str_lower rule (props_of w) =
           Inr (sublist (str_lower key) (str_lower (or_empty (name w))) \<or>
                sublist (str_lower key) (str_lower (or_empty (app_id w))) \<or>
                sublist (str_lower key) (str_lower (or_empty (window_class w)))) \<and>
         (rule_matches str_lower rule (props_of w) = Inr True \<longrightarrow>
            sublist (str_lower key) (str_lower (or_empty (name w))) \<or>
            sublist (str_lower key) (str_lower (or_empty (app_id w))) \<or>
            sublist (str_lower key) (str_lower (or_empty (window_class w)))) \<and>
         ((\<forall>p \<in> set PROP_NAMES. rule p = None) \<longrightarrow>
            rule_matches str_lower rule (props_of w) =
              Inr (sublist (str_lower key) (str_lower (or_empty (name w))) \<or>
                   sublist (str_lower key) (str_lower (or_empty (app_id w))) \<or>
                   sublist (str_lower key) (str_lower (or_empty (window_class w))))) \<and>
         ((\<forall>p \<in> set PROP_NAMES. rule p = None) \<and> key = ''firefox'' \<and>
          str_lower ''firefox'' = ''firefox'' \<and>
          sublist ''mozilla firefox'' (str_lower (or_empty (name w))) \<longrightarrow>
            rule_matches str_lower rule (props_of w) = Inr True)"
proof -
  let ?hit = "sublist (str_lower key) (str_lower (or_empty (name w))) \<or>
              sublist (str_lower key) (str_lower (or_empty (app_id w))) \<or>
              sublist (str_lower key) (str_lower (or_empty (window_class w)))"
  have g: "check_generic str_lower rule (props_of w) = Inr ?hit"
    using assms by (rule check_generic_match)
  have need: "?hit" if "rule_matches str_lower rule (props_of w) = Inr True"
  proof (rule ccontr)
    assume "\<not> ?hit"
    with g have "rule_matches str_lower rule (props_of w) =
                 check_specific str_lower PROP_NAMES rule (props_of w) False"
      by (simp add: rule_matches_def bind_err_def)
    with that show False
      by (simp add: check_specific_False)
  qed
  have only: "rule_matches str_lower rule (props_of w) = Inr ?hit"
    if "\<forall>p \<in> set PROP_NAMES. rule p = None"
    using g that by (simp add: rule_matches_def bind_err_def check_specific_absent)
  have ff: "sublist ''firefox'' ''mozilla firefox''"
  proof -
    have "str_in ''firefox'' ''mozilla firefox''" by simp
    then show ?thesis
      by (simp only: str_in_sublist)
  qed
  have firefox: "rule_matches str_lower rule (props_of w) = Inr True"
    if none: "\<forall>p \<in> set PROP_NAMES. rule p = None" and k: "key = ''firefox''"
      and fixed: "str_lower ''firefox'' = ''firefox''"
      and title: "sublist ''mozilla firefox'' (str_lower (or_empty (name w)))"
  proof -
    from ff title have "sublist ''firefox'' (str_lower (or_empty (name w)))"
      by (rule sublist_order.order_trans)
    then have "sublist (str_lower key) (str_lower (or_empty (name w)))"
      by (simp only: k fixed)
    with only [OF none] show ?thesis by simp
  qed
  show ?thesis
    using g need only firefox by blast
qed

theorem generic_match_iff_witness:
  "(ex_rules ! 1) ''match'' = Some ''firefox'' \<and>
   check_generic ascii_lower (ex_rules ! 1) (props_of ex_window) = Inr True \<and>
   rule_matches ascii_lower (ex_rules ! 1) (props_of ex_window) = Inr True \<and>
   \<not> sublist (ascii_lower ''firefox'') (ascii_lower (or_empty (app_id ex_window))) \<and>
   check_generic ascii_lower [''match'' \<mapsto> ''firefox''] (props_of ex_i3_window) = Inr False"
proof -
  have m: "(ex_rules ! 1) ''match'' = Some ''firefox''"
    by (simp add: ex_rules_def)
  have none: "\<forall>p \<in> set PROP_NAMES. (ex_rules ! 1) p = None"
    by (simp add: ex_rules_def PROP_NAMES_def)
  have "str_in ''firefox'' ''docs - mozilla firefox''" by simp
  then have title: "sublist (ascii_lower ''firefox'') (ascii_lower (or_empty (name ex_window)))"
    by (simp add: str_in_sublist ex_lower ex_window_def or_empty_def)
  have "\<not> str_in ''firefox'' ''browser''" by simp
  then have app:
    "\<not> sublist (ascii_lower ''firefox'') (ascii_lower (or_empty (app_id ex_window)))"
    by (simp add: str_in_sublist ex_lower ex_window_def or_empty_def)
  have m2: "[''match'' \<mapsto> ''firefox''] ''match'' = Some ''firefox''"
    by simp
  have low: "ascii_lower ''xterm'' = ''xterm''" "ascii_lower ''XTerm'' = ''xterm''"
    "ascii_lower [] = []"
    by (simp_all add: ascii_lower_def ascii_lower_char_def char_of_def bit_Suc_0_iff)
  have "\<not> str_in ''firefox'' ''xterm''" "\<not> str_in ''firefox'' []" by simp_all
  then have miss:
    "\<not> sublist (ascii_lower ''firefox'') (ascii_lower (or_empty (name ex_i3_window)))"
    "\<not> sublist (ascii_lower ''firefox'') (ascii_lower (or_empty (app_id ex_i3_window)))"
    "\<not> sublist (ascii_lower ''firefox'') (ascii_lower (or_empty (window_class ex_i3_window)))"
    by (simp_all add: str_in_sublist ex_lower low ex_i3_window_def or_empty_def)
  from generic_match_iff
    [where rule = "ex_rules ! 1" and key = "''firefox''" and w = ex_window
       and str_lower = ascii_lower, OF m]
    title none
  have "check_generic ascii_lower (ex_rules ! 1) (props_of ex_window) = Inr True"
    and "rule_matches ascii_lower (ex_rules ! 1) (props_of ex_window) = Inr True"
    by simp_all
  moreover from generic_match_iff
    [where rule = "[''match'' \<mapsto> ''firefox'']" and key = "''firefox''" and w = ex_i3_window
       and str_lower = ascii_lower, OF m2]
    miss
  have "check_generic ascii_lower [''match'' \<mapsto> ''firefox''] (props_of ex_i3_window) = Inr False"
    by simp
  ultimately show ?thesis
    using m app by simp
qed

section \<open>The title format\<close>

lemma shell_suffix_cases:
  "shell_suffix w = [] \<or> shell_suffix w = '' [XWayland]''"
  by (simp add: shell_suffix_def Let_def)

lemma title_fmt_plain:
  "\<not> truthy bg \<Longrightarrow> \<not> truthy fg \<Longrightarrow> title_fmt sfx bg fg = ''%title'' @ sfx"
  by (simp add: title_fmt_def)

lemma title_fmt_span:
  "truthy bg \<or> truthy fg \<Longrightarrow>
   title_fmt sfx bg fg =
     ''<span'' @
     (if truthy bg then '' background='' @ [CHR 0x27] @ fstr bg @ [CHR 0x27] else []) @
     (if truthy fg then '' foreground='' @ [CHR 0x27] @ fstr fg @ [CHR 0x27] else []) @
     ''> %title'' @ sfx @ '' </span>''"
  by (simp add: title_fmt_def Let_def)

lemma escape_quotes_append:
  "escape_quotes (a @ b) = escape_quotes a @ escape_quotes b"
  by (simp add: escape_quotes_def)

lemma escape_quotes_plain:
  "escape_quotes ''%title'' = ''%title''"
  "escape_quotes '' [XWayland]'' = '' [XWayland]''"
  "escape_quotes ''%title [XWayland]'' = ''%title [XWayland]''"
  "escape_quotes [] = []"
  by (simp_all add: escape_quotes_def)

lemma rules_loop_no_match:
  "\<forall>r \<in> set rs. rule_matches str_lower r props = Inr False \<Longrightarrow>
   rules_loop str_lower rs props = Inr (None, None)"
  by (induction rs) simp_all

text \<open>
  Claim C8. A window that no rule matches gets the decision \<open>(None, None)\<close>, and so does
  a window whose first matching rule has neither colour. For that decision, and for any
  decision whose two colours are both absent or empty, the format is the bare placeholder
  \<open>%title\<close> followed by the shell suffix (empty, or the XWayland mark): no \<open>span\<close>
  wrapper and no attribute; the command is \<open>title_format\<close> with exactly that string
  between double quotes. This holds for every rule list \<open>rs\<close> in \<open>COLOR_RULES\<close>.
\<close>

theorem no_match_bare_template:
  assumes "COLOR_RULES s = Rules rs"
    and "\<forall>r \<in> set rs. rule_matches str_lower r (props_of w) = Inr False"
  shows "get_colors_for_window str_lower s w = Inr (None, None) \<and>
         title_fmt (shell_suffix w) None None = ''%title'' @ shell_suffix w \<and>
         cmd_of w None None =
           ''[con_id='' @ str_int (win_id w) @ ''] title_format '' @
           [CHR 0x22] @ ''%title'' @ shell_suffix w @ [CHR 0x22] \<and>
         (shell_suffix w = [] \<or> shell_suffix w = '' [XWayland]'') \<and>
         (\<forall>rule rest.
            rule_matches str_lower rule (props_of w) = Inr True \<and>
            rule ''bg_color'' = None \<and> rule ''text_color'' = None \<longrightarrow>
            rules_loop str_lower (rule # rest) (props_of w) = Inr (None, None)) \<and>
         (\<forall>sfx bg fg. \<not> truthy bg \<and> \<not> truthy fg \<longrightarrow> title_fmt sfx bg fg = ''%title'' @ sfx)"
proof -
  have dec: "get_colors_for_window str_lower s w = Inr (None, None)"
    using assms by (simp add: get_colors_Rules rules_loop_no_match)
  have fmt: "title_fmt (shell_suffix w) None None = ''%title'' @ shell_suffix w"
    by (simp add: title_fmt_plain truthy_def)
  have esc: "escape_quotes (''%title'' @ shell_suffix w) = ''%title'' @ shell_suffix w"
    using shell_suffix_cases [of w]
    by (auto simp only: escape_quotes_append escape_quotes_plain)
  have cmd: "cmd_of w None None =
           ''[con_id='' @ str_int (win_id w) @ ''] title_format '' @
           [CHR 0x22] @ ''%title'' @ shell_suffix w @ [CHR 0x22]"
    unfolding fmt title_format_cmd_def esc by simp
  have colourless: "rules_loop str_lower (rule # rest) (props_of w) = Inr (None, None)"
    if "rule_matches str_lower rule (props_of w) = Inr True"
      and "rule ''bg_color'' = None" and "rule ''text_color'' = None" for rule rest
    using that by simp
  show ?thesis
    using dec fmt cmd shell_suffix_cases [of w] colourless title_fmt_plain by blast
qed

theorem no_match_bare_template_witness:
  "get_colors_for_window ascii_lower
     (ex_state\<lparr>COLOR_RULES := Rules [ex_rules ! 0, ex_rules ! 1]\<rparr>) ex_i3_window =
     Inr (None, None) \<and>
   cmd_of ex_i3_window None None =
     ''[con_id=9] title_format '' @ [CHR 0x22] @ ''%title'' @ [CHR 0x22]"
proof -
  let ?s = "ex_state\<lparr>COLOR_RULES := Rules [ex_rules ! 0, ex_rules ! 1]\<rparr>"
  have rs: "COLOR_RULES ?s = Rules [ex_rules ! 0, ex_rules ! 1]"
    by simp
  have low: "ascii_lower ''xterm'' = ''xterm''" "ascii_lower ''XTerm'' = ''xterm''"
    "ascii_lower [] = []"
    by (simp_all add: ascii_lower_def ascii_lower_char_def char_of_def bit_Suc_0_iff)
  have r0: "rule_matches ascii_lower (ex_rules ! 0) (props_of ex_i3_window) = Inr False"
    by (simp add: ex_rules_def ex_i3_window_def eval_defs ex_lower low)
  have r1: "rule_matches ascii_lower (ex_rules ! 1) (props_of ex_i3_window) = Inr False"
    by (simp add: ex_rules_def ex_i3_window_def eval_defs ex_lower low)
  have none: "\<forall>r \<in> set [ex_rules ! 0, ex_rules ! 1].
                rule_matches ascii_lower r (props_of ex_i3_window) = Inr False"
    using r0 r1 by simp
  have sfx: "shell_suffix ex_i3_window = []"
    by (simp add: shell_suffix_def ex_i3_window_def)
  have nine: "str_int (win_id ex_i3_window) = ''9''"
    by (simp add: ex_i3_window_def str_int_def str_nat.simps char_of_def bit_Suc_0_iff)
  from no_match_bare_template [OF rs none]
  have dec: "get_colors_for_window ascii_lower ?s ex_i3_window = Inr (None, None)"
    and cmd: "cmd_of ex_i3_window None None =
           ''[con_id='' @ str_int (win_id ex_i3_window) @ ''] title_format '' @
           [CHR 0x22] @ ''%title'' @ shell_suffix ex_i3_window @ [CHR 0x22]"
    by blast+
  show ?thesis
    using dec cmd by (simp add: sfx nine)
qed

section \<open>The XWayland suffix\<close>

text \<open>
  Claim C9. For a window whose shell is \<open>xwayland\<close> the suffix is the fixed string
  \<open> [XWayland]\<close>, and whatever the decision is, the format has it right after the
  placeholder: inside the \<open>span\<close> when a colour is present, and as the bare
  \<open>%title [XWayland]\<close> when none is. The escaped command string contains the same run.
\<close>

theorem xwayland_suffix:
  assumes "ipc_data w = Some d" and "d ''shell'' = Some ''xwayland''"
  shows "shell_suffix w = '' [XWayland]'' \<and>
         (truthy bg \<or> truthy fg \<longrightarrow>
            title_fmt (shell_suffix w) bg fg =
              ''<span'' @
              (if truthy bg then '' background='' @ [CHR 0x27] @ fstr bg @ [CHR 0x27] else []) @
              (if truthy fg then '' foreground='' @ [CHR 0x27] @ fstr fg @ [CHR 0x27] else []) @
              ''> %title [XWayland] </span>'') \<and>
         (\<not> truthy bg \<and> \<not> truthy fg \<longrightarrow>
            title_fmt (shell_suffix w) bg fg = ''%title [XWayland]'') \<and>
         sublist ''%title [XWayland]'' (title_fmt (shell_suffix w) bg fg) \<and>
         sublist ''%title [XWayland]'' (cmd_of w bg fg)"
proof -
  have sfx: "shell_suffix w = '' [XWayland]''"
    using assms by (simp add: shell_suffix_def)
  have span: "title_fmt (shell_suffix w) bg fg =
              ''<span'' @
              (if truthy bg then '' background='' @ [CHR 0x27] @ fstr bg @ [CHR 0x27] else []) @
              (if truthy fg then '' foreground='' @ [CHR 0x27] @ fstr fg @ [CHR 0x27] else []) @
              ''> %title [XWayland] </span>''"
    if "truthy bg \<or> truthy fg"
    using that by (simp add: sfx title_fmt_span)
  have plain: "title_fmt (shell_suffix w) bg fg = ''%title [XWayland]''"
    if "\<not> truthy bg \<and> \<not> truthy fg"
    using that by (simp add: sfx title_fmt_plain)
  obtain pre post where fmt: "title_fmt (shell_suffix w) bg fg = pre @ ''%title [XWayland]'' @ post"
  proof -
    consider (coloured) "truthy bg \<or> truthy fg" | (bare) "\<not> truthy bg \<and> \<not> truthy fg"
      by blast
    then show ?thesis
    proof cases
    case coloured
    have "title_fmt (shell_suffix w) bg fg =
          (''<span'' @
           (if truthy bg then '' background='' @ [CHR 0x27] @ fstr bg @ [CHR 0x27] else []) @
           (if truthy fg then '' foreground='' @ [CHR 0x27] @ fstr fg @ [CHR 0x27] else []) @
           ''> '') @ ''%title [XWayland]'' @ '' </span>''"
      using span [OF coloured] by simp
    then show ?thesis by (rule that)
  next
    case bare
    then have "title_fmt (shell_suffix w) bg fg = [] @ ''%title [XWayland]'' @ []"
      using plain by simp
    then show ?thesis by (rule that)
  qed
  qed
  have in_fmt: "sublist ''%title [XWayland]'' (title_fmt (shell_suffix w) bg fg)"
    unfolding fmt by (rule sublist_appendI)
  have "cmd_of w bg fg =
        (''[con_id='' @ str_int (win_id w) @ ''] title_format '' @ [CHR 0x22] @ escape_quotes pre) @
        ''%title [XWayland]'' @ (escape_quotes post @ [CHR 0x22])"
    unfolding fmt title_format_cmd_def escape_quotes_append escape_quotes_plain by simp
  then have in_cmd: "sublist ''%title [XWayland]'' (cmd_of w bg fg)"
    by (metis sublist_appendI)
  show ?thesis
    using sfx span plain in_fmt in_cmd by blast
qed

theorem xwayland_suffix_witness:
  "shell_suffix ex_window = '' [XWayland]'' \<and>
   title_fmt (shell_suffix ex_window) (Some ''#222222'') None =
     ''<span background='' @ [CHR 0x27] @ ''#222222'' @ [CHR 0x27] @
     ''> %title [XWayland] </span>'' \<and>
   title_fmt (shell_suffix ex_window) None None = ''%title [XWayland]''"
proof -
  have d: "ipc_data ex_window = Some [''shell'' \<mapsto> ''xwayland'']"
    by (simp add: ex_window_def)
  have sh: "[''shell'' \<mapsto> ''xwayland''] ''shell'' = Some ''xwayland''"
    by simp
  have t: "truthy (Some ''#222222'')" "\<not> truthy None" "fstr (Some ''#222222'') = ''#222222''"
    by (simp_all add: truthy_def fstr_def)
  from xwayland_suffix [OF d sh, of "Some ''#222222''" None]
  have a: "shell_suffix ex_window = '' [XWayland]''"
    and "truthy (Some ''#222222'') \<or> truthy None \<longrightarrow>
         title_fmt (shell_suffix ex_window) (Some ''#222222'') None =
           ''<span'' @
           (if truthy (Some ''#222222'')
            then '' background='' @ [CHR 0x27] @ fstr (Some ''#222222'') @ [CHR 0x27] else []) @
           (if truthy None then '' foreground='' @ [CHR 0x27] @ fstr None @ [CHR 0x27] else []) @
           ''> %title [XWayland] </span>''"
    by blast+
  then have b: "title_fmt (shell_suffix ex_window) (Some ''#222222'') None =
            ''<span background='' @ [CHR 0x27] @ ''#222222'' @ [CHR 0x27] @
            ''> %title [XWayland] </span>''"
    by (simp add: t)
  from xwayland_suffix [OF d sh, of None None]
  have "\<not> truthy None \<and> \<not> truthy None \<longrightarrow>
        title_fmt (shell_suffix ex_window) None None = ''%title [XWayland]''"
    by blast
  then have c: "title_fmt (shell_suffix ex_window) None None = ''%title [XWayland]''"
    by (simp add: t)
  from a b c show ?thesis by (intro conjI)
qed

section \<open>Empty constraint values\<close>

text \<open>
  Where the window's \<open>shell\<close> entry is a string, empty constraint values pass every
  check: an empty \<open>match\<close> key and empty specific fields match like no fields at all.
  All this needs of \<open>str.lower()\<close> is that it leaves the empty string empty.
\<close>

lemma str_in_Nil: "str_in [] s"
  by (cases s) simp_all

lemma check_specific_empty:
  assumes "str_lower [] = []"
    and "\<forall>p \<in> set names. \<exists>v. props p = Some (Some v)"
    and "\<forall>p \<in> set names. rule p = None \<or> rule p = Some []"
  shows "check_specific str_lower names rule props b = Inr b"
  using assms
proof (induction names)
  case Nil
  show ?case by simp
next
  case (Cons p names)
  then obtain v where v: "props p = Some (Some v)" by auto
  from Cons have rest: "check_specific str_lower names rule props b = Inr b" by simp
  from Cons.prems(3) consider "rule p = None" | "rule p = Some []" by auto
  then show ?case
  proof cases
    case 1
    with rest show ?thesis by simp
  next
    case 2
    with rest v Cons.prems(1) show ?thesis
      by (simp add: bind_err_def getitem_def py_lower_def str_in_Nil)
  qed
qed

lemma empty_constraints_match:
  assumes "str_lower [] = []"
    and "props_of w ''shell'' \<noteq> Some None"
    and "\<forall>k \<in> set (''match'' # PROP_NAMES). rule k = None \<or> rule k = Some []"
  shows "rule_matches str_lower rule (props_of w) = Inr True"
proof -
  have g: "check_generic str_lower rule (props_of w) = Inr True"
  proof -
    from assms(3) consider "rule ''match'' = None" | "rule ''match'' = Some []" by auto
    then show ?thesis
    proof cases
      case 1
      then show ?thesis by (simp add: check_generic_def)
    next
      case 2
      with assms(1) show ?thesis
        by (simp add: check_generic_def Let_def bind_err_def getitem_def py_lower_def
            props_of_lookup str_in_Nil)
    qed
  qed
  have shell: "\<exists>v. props_of w ''shell'' = Some (Some v)"
    using assms(2) by (auto simp: props_of_lookup split: option.splits)
  have strs: "\<forall>p \<in> set PROP_NAMES. \<exists>v. props_of w p = Some (Some v)"
    using shell by (simp add: PROP_NAMES_def props_of_lookup)
  have "check_specific str_lower PROP_NAMES rule (props_of w) True = Inr True"
    using assms(1) strs assms(3) by (intro check_specific_empty) simp_all
  with g show ?thesis
    by (simp add: rule_matches_def bind_err_def)
qed

end
